theory Spec2Isabelle
  imports Complex_Main "HOL-Library.Sublist"
begin

section \<open>Context engine providers: RAG context injection and placeholder variables\<close>

text \<open>
  A shallow embedding of the two providers
  \<^verbatim>\<open>packages/context-engine/src/providers/RAGContextInjector.ts\<close> and
  \<^verbatim>\<open>packages/context-engine/src/providers/PlaceholderVariableInjector.ts\<close>.

  Conventions of the embedding.
  \<^item> A JavaScript string is a \<open>string\<close>; one \<open>char\<close> stands for one UTF-16 code unit, so
    \<open>length\<close> is \<^verbatim>\<open>.length\<close> and \<open>take\<close>/\<open>drop\<close> are \<^verbatim>\<open>substring\<close>. Code units above
    \<open>0xFF\<close> are outside the alphabet of the model.
  \<^item> A number of the language is a \<open>jsnum\<close>: a finite value, one of the two infinities, or
    \<^verbatim>\<open>NaN\<close>. The two zeros are one value. Comparisons are exact. The rounding of
    arithmetic is not modelled: of a difference only the sign is used, which rounding
    keeps, and the addition and the division of the average are parameters.
  \<^item> An optional configuration field is an \<open>option\<close>: \<open>None\<close> is \<^verbatim>\<open>undefined\<close>. The
    budget \<^verbatim>\<open>maxContextLength\<close> is an integer, of either sign.
  \<^item> Object spread \<^verbatim>\<open>{...x, f: v}\<close> is a record update, which keeps every other field, also
    the fields of the extension part \<open>more\<close> of the record (the pass-through fields).
  \<^item> A throw is a value \<open>Inl\<close> of a sum type, the rejection of the promise of an
    \<^verbatim>\<open>async\<close> method included.
  \<^item> \<^verbatim>\<open>PlaceholderVariableInjector.ts\<close> imports \<^verbatim>\<open>debug\<close> and declares
    \<^verbatim>\<open>const log = debug(...)\<close>: its calls of \<^verbatim>\<open>log\<close> write to a debug sink, have no effect
    on the value computed and are left out. \<^verbatim>\<open>RAGContextInjector.ts\<close> neither imports nor
    declares \<^verbatim>\<open>log\<close>: there every call of \<^verbatim>\<open>log\<close> throws a \<^verbatim>\<open>ReferenceError\<close>, and the
    model has each of these calls at its place.
  \<^item> The fields \<^verbatim>\<open>id\<close> and \<^verbatim>\<open>content\<close> of a message are \<open>msg_id\<close> and \<open>msg_content\<close>;
    \<open>content\<close> is the field of a chunk. The fields of the metadata entry \<^verbatim>\<open>ragContext\<close>
    that share a name with a field of the configuration have the prefix \<open>rag_\<close>. The two
    methods \<^verbatim>\<open>doProcess\<close> carry the name of their class.
\<close>

subsection \<open>Numbers\<close>

datatype jsnum = Num real | PosInfinity | NegInfinity | NaN

fun jsGe :: "jsnum \<Rightarrow> jsnum \<Rightarrow> bool" where
  \<comment> \<open>\<^verbatim>\<open>x >= y\<close>: false when either side is \<^verbatim>\<open>NaN\<close>.\<close>
  "jsGe NaN y = False"
| "jsGe x NaN = False"
| "jsGe PosInfinity y = True"
| "jsGe x NegInfinity = True"
| "jsGe NegInfinity y = False"
| "jsGe x PosInfinity = False"
| "jsGe (Num x) (Num y) = (y \<le> x)"

datatype comparison = Negative | Zero | Positive | NotANumber

fun signOfDifference :: "jsnum \<Rightarrow> jsnum \<Rightarrow> comparison" where
  \<comment> \<open>The sign of \<^verbatim>\<open>x - y\<close>. The difference of two finite numbers is rounded, and is zero
      only when they are equal; the difference of two equal infinities is \<^verbatim>\<open>NaN\<close>.\<close>
  "signOfDifference NaN y = NotANumber"
| "signOfDifference x NaN = NotANumber"
| "signOfDifference PosInfinity PosInfinity = NotANumber"
| "signOfDifference NegInfinity NegInfinity = NotANumber"
| "signOfDifference PosInfinity y = Positive"
| "signOfDifference x PosInfinity = Negative"
| "signOfDifference NegInfinity y = Negative"
| "signOfDifference x NegInfinity = Positive"
| "signOfDifference (Num x) (Num y) = (if x < y then Negative else if x = y then Zero else Positive)"

subsection \<open>Data model\<close>

record RetrievalChunk =
  content :: string
  similarity :: jsnum

record 'c RAGContextConfig =
  chunks :: "'c RetrievalChunk_scheme list"
  rewriteQuery :: "string option"
  queryId :: "string option"
  maxContextLength :: "int option"
  minSimilarity :: "jsnum option"
  sortBySimilarity :: "bool option"

subsection \<open>String primitives of the language\<close>

definition clampIndex :: "int \<Rightarrow> nat \<Rightarrow> nat" where
  "clampIndex i n = (if i < 0 then 0 else min (nat i) n)"

definition substring :: "string \<Rightarrow> int \<Rightarrow> int \<Rightarrow> string" where
  \<comment> \<open>\<^verbatim>\<open>s.substring(a, b)\<close>: both indices are clamped to \<open>[0, length s]\<close> and swapped when
      \<open>a > b\<close>.\<close>
  "substring s a b =
     (let i = clampIndex a (length s); j = clampIndex b (length s);
          lo = min i j; hi = max i j
      in take (hi - lo) (drop lo s))"

subsection \<open>\<^verbatim>\<open>truncateByLength\<close>\<close>

fun truncateLoop ::
  "int \<Rightarrow> int \<Rightarrow> 'c RetrievalChunk_scheme list \<Rightarrow> 'c RetrievalChunk_scheme list" where
  "truncateLoop maxLength totalLength [] = []"
| "truncateLoop maxLength totalLength (chunk # rest) =
     (let chunkLength = int (length (content chunk)) in
      if totalLength + chunkLength \<le> maxLength
      then chunk # truncateLoop maxLength (totalLength + chunkLength) rest
      else (let remainingLength = maxLength - totalLength in
            if remainingLength > 100
            then [chunk\<lparr>content := substring (content chunk) 0 remainingLength @ ''...''\<rparr>]
            else []))"

definition truncateByLength ::
  "'c RetrievalChunk_scheme list \<Rightarrow> int \<Rightarrow> 'c RetrievalChunk_scheme list" where
  "truncateByLength cs maxLength = truncateLoop maxLength 0 cs"

subsection \<open>\<^verbatim>\<open>Array.prototype.sort\<close> with a comparator\<close>

text \<open>
  The sort of the language is stable. It reads the sign of what the comparator returns,
  takes \<^verbatim>\<open>NaN\<close> for zero, and puts \<open>x\<close> after \<open>y\<close> only when the comparator of \<open>x\<close> and
  \<open>y\<close> is positive. For a comparator that is a consistent ordering the result is unique,
  and it is the one of insertion from the right: an element goes before the first element
  of the sorted rest that it does not compare greater than. For a comparator that is not
  consistent, as the one of this file is on a \<^verbatim>\<open>NaN\<close> score, the language leaves the order
  to the implementation; the model takes the order of the same insertion there.
\<close>

fun insertBy :: "('a \<Rightarrow> 'a \<Rightarrow> comparison) \<Rightarrow> 'a \<Rightarrow> 'a list \<Rightarrow> 'a list" where
  "insertBy cmp x [] = [x]"
| "insertBy cmp x (y # ys) = (if cmp x y = Positive then y # insertBy cmp x ys else x # y # ys)"

definition sortBy :: "('a \<Rightarrow> 'a \<Rightarrow> comparison) \<Rightarrow> 'a list \<Rightarrow> 'a list" where
  "sortBy cmp xs = foldr (insertBy cmp) xs []"

definition bySimilarityDesc :: "'c RetrievalChunk_scheme \<Rightarrow> 'c RetrievalChunk_scheme \<Rightarrow> comparison" where
  \<comment> \<open>\<^verbatim>\<open>(a, b) => b.similarity - a.similarity\<close>\<close>
  "bySimilarityDesc a b = signOfDifference (similarity b) (similarity a)"

subsection \<open>The undeclared \<^verbatim>\<open>log\<close>\<close>

text \<open>
  \<^verbatim>\<open>RAGContextInjector.ts\<close> calls \<^verbatim>\<open>log(...)\<close> and \<^verbatim>\<open>log.extend('warn')(...)\<close>, and no
  binding of \<^verbatim>\<open>log\<close> is in its scope. The evaluation of the identifier throws a
  \<^verbatim>\<open>ReferenceError\<close> before any argument of the call is evaluated.
\<close>

datatype js_error = ReferenceError string

definition logCall :: "js_error + unit" where
  \<comment> \<open>A call of \<^verbatim>\<open>log\<close> in \<^verbatim>\<open>RAGContextInjector.ts\<close>.\<close>
  "logCall = Inl (ReferenceError ''log'')"

definition thenDo :: "js_error + 'a \<Rightarrow> ('a \<Rightarrow> js_error + 'b) \<Rightarrow> js_error + 'b" where
  \<comment> \<open>One statement after another: a throw of the first ends the run.\<close>
  "thenDo r f = (case r of Inl e \<Rightarrow> Inl e | Inr a \<Rightarrow> f a)"

subsection \<open>\<^verbatim>\<open>processRetrievalChunks\<close>\<close>

definition filterBySimilarity ::
  "jsnum \<Rightarrow> 'c RetrievalChunk_scheme list \<Rightarrow> 'c RetrievalChunk_scheme list" where
  \<comment> \<open>\<^verbatim>\<open>processedChunks.filter(chunk => chunk.similarity >= this.config.minSimilarity!)\<close>\<close>
  "filterBySimilarity m cs = filter (\<lambda>chunk. jsGe (similarity chunk) m) cs"

definition filterStep ::
  "'c RAGContextConfig \<Rightarrow> 'c RetrievalChunk_scheme list \<Rightarrow> js_error + 'c RetrievalChunk_scheme list" where
  \<comment> \<open>Lines 91 to 94: the filter, then a call of \<^verbatim>\<open>log\<close>.\<close>
  "filterStep cfg cs =
     (case minSimilarity cfg of
        None \<Rightarrow> Inr cs
      | Some m \<Rightarrow>
          (let processedChunks = filterBySimilarity m cs
           in thenDo logCall (\<lambda>u. Inr processedChunks)))"

definition sortStep ::
  "'c RAGContextConfig \<Rightarrow> 'c RetrievalChunk_scheme list \<Rightarrow> js_error + 'c RetrievalChunk_scheme list" where
  \<comment> \<open>Lines 97 to 100: the sort, then a call of \<^verbatim>\<open>log\<close>.\<close>
  "sortStep cfg cs =
     (if sortBySimilarity cfg \<noteq> Some False
      then (let processedChunks = sortBy bySimilarityDesc cs
            in thenDo logCall (\<lambda>u. Inr processedChunks))
      else Inr cs)"

definition truncateStep ::
  "'c RAGContextConfig \<Rightarrow> 'c RetrievalChunk_scheme list \<Rightarrow> js_error + 'c RetrievalChunk_scheme list" where
  \<comment> \<open>Lines 103 to 106: \<^verbatim>\<open>if (this.config.maxContextLength)\<close>, where \<^verbatim>\<open>undefined\<close> and \<open>0\<close>
      are falsy; the truncation, then a call of \<^verbatim>\<open>log\<close>.\<close>
  "truncateStep cfg cs =
     (case maxContextLength cfg of
        None \<Rightarrow> Inr cs
      | Some n \<Rightarrow>
          if n \<noteq> 0
          then (let processedChunks = truncateByLength cs n
                in thenDo logCall (\<lambda>u. Inr processedChunks))
          else Inr cs)"

definition processRetrievalChunks ::
  "'c RAGContextConfig \<Rightarrow> 'c RetrievalChunk_scheme list \<Rightarrow> js_error + 'c RetrievalChunk_scheme list" where
  "processRetrievalChunks cfg cs =
     thenDo (filterStep cfg cs) (\<lambda>processedChunks.
     thenDo (sortStep cfg processedChunks) (\<lambda>processedChunks.
     truncateStep cfg processedChunks))"

definition totalContentLength :: "'c RetrievalChunk_scheme list \<Rightarrow> nat" where
  "totalContentLength cs = sum_list (map (\<lambda>chunk. length (content chunk)) cs)"

subsection \<open>Messages, pipeline context and metadata\<close>

record ConversationMessage =
  msg_id :: string
  role :: string
  msg_content :: string

record RAGContext =
  chunksCount :: nat
  totalContextLength :: nat
  rag_queryId :: "string option"
  rag_rewriteQuery :: "string option"
  rag_minSimilarity :: jsnum
  rag_maxSimilarity :: jsnum
  rag_avgSimilarity :: jsnum

datatype 'x meta_value =
    RagContextValue RAGContext
  | NumberValue nat
  | KeysValue "string list"
  | OtherValue 'x

record ('m, 'x) PipelineContext =
  messages :: "'m ConversationMessage_scheme list"
  metadata :: "string \<rightharpoonup> 'x meta_value"
  isExecuted :: bool

definition cloneContext :: "('m, 'x) PipelineContext \<Rightarrow> ('m, 'x) PipelineContext" where
  \<comment> \<open>Modelled from the spec: \<^verbatim>\<open>cloneContext\<close> of \<^verbatim>\<open>BaseProvider\<close> is not among the sources.
      The stage works on a deep clone of the context it is given: a value equal to the
      input, which the caller no longer shares.\<close>
  "cloneContext context = context"

definition markAsExecuted :: "('m, 'x) PipelineContext \<Rightarrow> ('m, 'x) PipelineContext" where
  \<comment> \<open>Modelled from the spec: \<^verbatim>\<open>markAsExecuted\<close> of \<^verbatim>\<open>BaseProvider\<close> is not among the sources.
      It returns the context marked as executed, an idempotent flag that the pipeline host
      inspects; messages and metadata are as they were.\<close>
  "markAsExecuted context = context\<lparr>isExecuted := True\<rparr>"

subsection \<open>More string primitives\<close>

definition newline :: string where
  "newline = [CHR 0x0A]"

definition isWhiteSpace :: "char \<Rightarrow> bool" where
  \<comment> \<open>White space and line terminators that \<^verbatim>\<open>trim\<close> strips, within the alphabet of the
      model: tab, line feed, vertical tab, form feed, carriage return, space, no-break
      space.\<close>
  "isWhiteSpace c = (c \<in> set [CHR 0x09, CHR 0x0A, CHR 0x0B, CHR 0x0C, CHR 0x0D, CHR 0x20, CHR 0xA0])"

definition trim :: "string \<Rightarrow> string" where
  "trim s = rev (dropWhile isWhiteSpace (rev (dropWhile isWhiteSpace s)))"

fun joinWith :: "string \<Rightarrow> string list \<Rightarrow> string" where
  "joinWith sep [] = []"
| "joinWith sep [x] = x"
| "joinWith sep (x # y # ys) = x @ sep @ joinWith sep (y # ys)"

subsection \<open>\<^verbatim>\<open>findLastUserMessage\<close>, \<^verbatim>\<open>buildRAGContext\<close>, \<^verbatim>\<open>injectRAGContext\<close>\<close>

text \<open>
  \<^verbatim>\<open>findLastUserMessage\<close> returns the message object itself, which \<^verbatim>\<open>doProcess\<close> then
  assigns to; the model returns its index. \<open>findLastUserFrom ms n\<close> is the loop with
  \<open>i = n - 1\<close> still to be visited.
\<close>

fun findLastUserFrom :: "'m ConversationMessage_scheme list \<Rightarrow> nat \<Rightarrow> nat option" where
  "findLastUserFrom ms 0 = None"
| "findLastUserFrom ms (Suc i) = (if role (ms ! i) = ''user'' then Some i else findLastUserFrom ms i)"

definition findLastUserMessage :: "'m ConversationMessage_scheme list \<Rightarrow> nat option" where
  "findLastUserMessage ms = findLastUserFrom ms (length ms)"

text \<open>
  The literal texts of \<^verbatim>\<open>buildRAGContext\<close> are written in Chinese, outside the alphabet of
  the model, and the reference header formats the similarity with \<^verbatim>\<open>toFixed(1)\<close>. They are
  parameters of the model: the preamble, the header of reference \<open>n\<close> with a given
  similarity, the two texts of the rewritten-query section and the closing instruction.
\<close>

record RAGTexts =
  preamble :: string
  referenceHeader :: "nat \<Rightarrow> jsnum \<Rightarrow> string"
  rewriteTitle :: string
  rewritePrefix :: string
  closing :: string

definition buildRAGContext ::
  "RAGTexts \<Rightarrow> 'c RAGContextConfig \<Rightarrow> 'c RetrievalChunk_scheme list \<Rightarrow> string" where
  "buildRAGContext T cfg cs =
     (let contextParts = [preamble T, []];
          contextParts = contextParts @
            concat (map (\<lambda>(chunk, index).
                      [referenceHeader T (index + 1) (similarity chunk), trim (content chunk), []])
                    (zip cs [0..<length cs]));
          contextParts = contextParts @
            (case rewriteQuery cfg of
               None \<Rightarrow> []
             | Some q \<Rightarrow> if q \<noteq> [] then [rewriteTitle T, rewritePrefix T @ q, []] else []);
          contextParts = contextParts @ [closing T]
      in joinWith newline contextParts)"

definition injectRAGContext :: "string \<Rightarrow> string \<Rightarrow> string" where
  "injectRAGContext originalContent ragContext = trim (joinWith newline [originalContent, [], ragContext])"

subsection \<open>Similarity statistics\<close>

text \<open>
  \<^verbatim>\<open>Math.min(...xs)\<close> starts from \<^verbatim>\<open>Infinity\<close> and \<^verbatim>\<open>Math.max(...xs)\<close> from \<^verbatim>\<open>-Infinity\<close>,
  which are their results for no argument; a \<^verbatim>\<open>NaN\<close> argument makes the result \<^verbatim>\<open>NaN\<close>.
  The addition and the division of numbers round: they are parameters of the model.
\<close>

definition jsMin :: "jsnum \<Rightarrow> jsnum \<Rightarrow> jsnum" where
  "jsMin a b = (if a = NaN \<or> b = NaN then NaN else if jsGe a b then b else a)"

definition jsMax :: "jsnum \<Rightarrow> jsnum \<Rightarrow> jsnum" where
  "jsMax a b = (if a = NaN \<or> b = NaN then NaN else if jsGe a b then a else b)"

definition mathMin :: "jsnum list \<Rightarrow> jsnum" where
  "mathMin xs = foldl jsMin PosInfinity xs"

definition mathMax :: "jsnum list \<Rightarrow> jsnum" where
  "mathMax xs = foldl jsMax NegInfinity xs"

record Doubles =
  addDouble :: "jsnum \<Rightarrow> jsnum \<Rightarrow> jsnum"
  divideDouble :: "jsnum \<Rightarrow> jsnum \<Rightarrow> jsnum"

subsection \<open>\<^verbatim>\<open>RAGContextInjector.doProcess\<close>\<close>

definition RAGContextInjector_doProcess ::
  "RAGTexts \<Rightarrow> Doubles \<Rightarrow> 'c RAGContextConfig \<Rightarrow> ('m, 'x) PipelineContext
   \<Rightarrow> js_error + ('m, 'x) PipelineContext" where
  "RAGContextInjector_doProcess T D cfg context =
     (let clonedContext = cloneContext context in
      if length (chunks cfg) = 0
      then thenDo logCall (\<lambda>u. Inr (markAsExecuted clonedContext))
      else
        thenDo (processRetrievalChunks cfg (chunks cfg)) (\<lambda>processedChunks.
        if length processedChunks = 0
        then thenDo logCall (\<lambda>u. Inr (markAsExecuted clonedContext))
        else
          case findLastUserMessage (messages clonedContext) of
            None \<Rightarrow> thenDo logCall (\<lambda>u. Inr (markAsExecuted clonedContext))
          | Some i \<Rightarrow>
              let lastUserMessage = messages clonedContext ! i;
                  ragContext = buildRAGContext T cfg processedChunks;
                  updatedContent = injectRAGContext (msg_content lastUserMessage) ragContext;
                  clonedContext = clonedContext
                    \<lparr>messages := (messages clonedContext)[i := lastUserMessage\<lparr>msg_content := updatedContent\<rparr>]\<rparr>;
                  clonedContext = clonedContext
                    \<lparr>metadata := (metadata clonedContext)(''ragContext'' \<mapsto> RagContextValue
                       \<lparr>chunksCount = length processedChunks,
                        totalContextLength = length ragContext,
                        rag_queryId = queryId cfg,
                        rag_rewriteQuery = rewriteQuery cfg,
                        rag_minSimilarity = mathMin (map similarity processedChunks),
                        rag_maxSimilarity = mathMax (map similarity processedChunks),
                        rag_avgSimilarity =
                          divideDouble D
                            (foldl (\<lambda>sum c. addDouble D sum (similarity c)) (Num 0) processedChunks)
                            (Num (real (length processedChunks)))\<rparr>)\<rparr>
              in thenDo logCall (\<lambda>u. Inr (markAsExecuted clonedContext))))"

subsection \<open>Placeholder detection: the three regular expressions\<close>

text \<open>
  Each pattern of \<^verbatim>\<open>hasPlaceholders\<close> is an opening delimiter, \<^verbatim>\<open>.+?\<close>, and a closing
  delimiter. The dot matches any character but a line terminator. \<open>dotPlusLazy close s\<close>
  matches \<^verbatim>\<open>.+?\<close> followed by \<open>close\<close> at the start of \<open>s\<close>: one character is consumed,
  then the closing delimiter is tried before each further character.
\<close>

definition isLineTerminator :: "char \<Rightarrow> bool" where
  "isLineTerminator c = (c = CHR 0x0A \<or> c = CHR 0x0D)"

fun dotPlusLazy :: "string \<Rightarrow> string \<Rightarrow> bool" where
  "dotPlusLazy close [] = False"
| "dotPlusLazy close (c # s) = (\<not> isLineTerminator c \<and> (prefix close s \<or> dotPlusLazy close s))"

definition matchAt :: "string \<Rightarrow> string \<Rightarrow> string \<Rightarrow> bool" where
  "matchAt opn close s = (prefix opn s \<and> dotPlusLazy close (drop (length opn) s))"

fun regexTest :: "string \<Rightarrow> string \<Rightarrow> string \<Rightarrow> bool" where
  \<comment> \<open>\<^verbatim>\<open>pattern.test(text)\<close> without the global flag: a match at some start position.\<close>
  "regexTest opn close [] = matchAt opn close []"
| "regexTest opn close (c # s) = (matchAt opn close (c # s) \<or> regexTest opn close s)"

definition hasPlaceholders :: "string \<Rightarrow> bool" where
  \<comment> \<open>\<^verbatim>\<open>!text\<close> holds of the empty string; the content of a message is a string, so the
      \<^verbatim>\<open>typeof\<close> guard does not fire.\<close>
  "hasPlaceholders text =
     (if text = [] then False
      else list_ex (\<lambda>(opn, close). regexTest opn close text)
             [(''{{'', ''}}''), (''{{{'', ''}}}''), (''{%'', ''%}'')])"

definition containsMarker :: "string \<Rightarrow> string \<Rightarrow> string \<Rightarrow> bool" where
  \<comment> \<open>The specification's words for a text that contains a placeholder marker: somewhere
      in the text stands the opening delimiter, then at least one character and no line
      terminator, then the closing delimiter.\<close>
  "containsMarker opn close text =
     (\<exists>before body after.
        text = before @ opn @ body @ close @ after \<and> body \<noteq> [] \<and>
        (\<forall>c\<in>set body. \<not> isLineTerminator c))"

subsection \<open>\<^verbatim>\<open>PlaceholderVariableInjector.doProcess\<close>\<close>

text \<open>
  The variable bag is an association list in the order of \<^verbatim>\<open>Object.keys\<close>. The \<^verbatim>\<open>template\<close>
  function of the lodash library is a parameter: compiling a text either throws or gives
  a function, which applied to the bag either throws or gives the expanded text. A throw
  is a value \<open>Inl\<close>.
\<close>

type_synonym ('v, 'e) template = "string \<Rightarrow> 'e + ((string \<times> 'v) list \<Rightarrow> 'e + string)"

definition runTemplate :: "('v, 'e) template \<Rightarrow> (string \<times> 'v) list \<Rightarrow> string \<Rightarrow> 'e + string" where
  \<comment> \<open>\<^verbatim>\<open>template(originalContent, {...})(this.variables)\<close>\<close>
  "runTemplate template variables text =
     (case template text of
        Inl error \<Rightarrow> Inl error
      | Inr compiled \<Rightarrow> compiled variables)"

definition processMessage ::
  "('v, 'e) template \<Rightarrow> (string \<times> 'v) list \<Rightarrow> nat \<times> nat \<Rightarrow> 'm ConversationMessage_scheme
   \<Rightarrow> 'm ConversationMessage_scheme \<times> nat \<times> nat" where
  \<comment> \<open>The callback of \<^verbatim>\<open>messages.map\<close>, with the two counters it increments passed in and
      out.\<close>
  "processMessage template variables counters message =
     (let (processedCount, errorCount) = counters;
          originalContent = msg_content message
      in if \<not> hasPlaceholders originalContent then (message, processedCount, errorCount)
         else
           case runTemplate template variables originalContent of
             Inl error \<Rightarrow> (message, processedCount, errorCount + 1)
           | Inr processedContent \<Rightarrow>
               (message\<lparr>msg_content := processedContent\<rparr>,
                if processedContent \<noteq> originalContent then processedCount + 1 else processedCount,
                errorCount))"

fun mapMessages ::
  "('v, 'e) template \<Rightarrow> (string \<times> 'v) list \<Rightarrow> nat \<times> nat \<Rightarrow> 'm ConversationMessage_scheme list
   \<Rightarrow> 'm ConversationMessage_scheme list \<times> nat \<times> nat" where
  "mapMessages template variables counters [] = ([], counters)"
| "mapMessages template variables counters (message # rest) =
     (let (message', counters') = processMessage template variables counters message;
          (rest', counters'') = mapMessages template variables counters' rest
      in (message' # rest', counters''))"

definition PlaceholderVariableInjector_doProcess ::
  "('v, 'e) template \<Rightarrow> (string \<times> 'v) list \<Rightarrow> ('m, 'x) PipelineContext \<Rightarrow> ('m, 'x) PipelineContext" where
  "PlaceholderVariableInjector_doProcess template variables context =
     (let clonedContext = cloneContext context in
      if length (map fst variables) = 0 then markAsExecuted clonedContext
      else
        let (messages', processedCount, errorCount) =
              mapMessages template variables (0, 0) (messages clonedContext);
            clonedContext = clonedContext\<lparr>messages := messages'\<rparr>;
            clonedContext = clonedContext
              \<lparr>metadata := (metadata clonedContext)(''placeholdersProcessed'' \<mapsto> NumberValue processedCount)\<rparr>;
            clonedContext = clonedContext
              \<lparr>metadata := (metadata clonedContext)(''placeholderErrors'' \<mapsto> NumberValue errorCount)\<rparr>;
            clonedContext = clonedContext
              \<lparr>metadata := (metadata clonedContext)(''availableVariables'' \<mapsto> KeysValue (map fst variables))\<rparr>
        in markAsExecuted clonedContext)"

subsection \<open>The template engine\<close>

text \<open>
  The expansion of a text is the work of the \<^verbatim>\<open>template\<close> function of the lodash library,
  which is not among the sources. The definitions of this subsection follow the
  specification of the placeholder grammar: three pattern classes, tried in this order at
  each position of the text: \<^verbatim>\<open>{{{expr}}}\<close> inserts the value of the expression with the
  markup characters escaped, \<^verbatim>\<open>{{expr}}\<close> inserts it as it is, \<^verbatim>\<open>{%code%}\<close> evaluates
  code. The evaluation of an expression and of code against the variable bag are
  parameters; each gives a text or fails.
\<close>

definition escapeChar :: "char \<Rightarrow> string" where
  \<comment> \<open>Modelled from the spec: the escaping done by the template engine of the lodash
      library, which is not among the sources. Markup escaping for safe display, as in the
      specification's example of \<^verbatim>\<open>&lt;\<close> and \<^verbatim>\<open>&gt;\<close>; the ampersand and the two quotes
      are escaped too.\<close>
  "escapeChar c =
     (if c = CHR ''&'' then ''&amp;''
      else if c = CHR ''<'' then ''&lt;''
      else if c = CHR ''>'' then ''&gt;''
      else if c = CHR 0x22 then ''&quot;''
      else if c = CHR 0x27 then ''&#39;''
      else [c])"

definition escapeMarkup :: "string \<Rightarrow> string" where
  \<comment> \<open>Modelled from the spec: the escaped form of a value, in place of the template engine
      of the lodash library.\<close>
  "escapeMarkup s = concat (map escapeChar s)"

fun lazyCapture :: "string \<Rightarrow> string \<Rightarrow> (string \<times> string) option" where
  \<comment> \<open>Modelled from the spec: the scanning of the template engine of the lodash library.
      \<^verbatim>\<open>(.+?)\<close> followed by the closing delimiter: the captured expression and the text
      after the delimiter.\<close>
  "lazyCapture close [] = None"
| "lazyCapture close (c # s) =
     (if isLineTerminator c then None
      else if prefix close s then Some ([c], drop (length close) s)
      else (case lazyCapture close s of
              None \<Rightarrow> None
            | Some (body, rest) \<Rightarrow> Some (c # body, rest)))"

definition captureAt :: "string \<Rightarrow> string \<Rightarrow> string \<Rightarrow> (string \<times> string) option" where
  \<comment> \<open>Modelled from the spec: a match of one pattern class of the template engine at the
      start of a text.\<close>
  "captureAt opn close s = (if prefix opn s then lazyCapture close (drop (length opn) s) else None)"

definition emit :: "'e + string \<Rightarrow> 'e + string \<Rightarrow> 'e + string" where
  \<comment> \<open>Modelled from the spec: the text that the template engine produces for one piece,
      followed by the expansion of the rest; a failure of either is the failure of the
      whole.\<close>
  "emit v following =
     (case v of
        Inl error \<Rightarrow> Inl error
      | Inr a \<Rightarrow> (case following of Inl error \<Rightarrow> Inl error | Inr b \<Rightarrow> Inr (a @ b)))"

function expand ::
  "(string \<Rightarrow> 'e + string) \<Rightarrow> (string \<Rightarrow> 'e + string) \<Rightarrow> string \<Rightarrow> 'e + string" where
  \<comment> \<open>Modelled from the spec: the \<^verbatim>\<open>template\<close> function of the lodash library, which is
      not among the sources, as \<^verbatim>\<open>expand(text, variables)\<close> of the text placeholder grammar,
      with \<open>ev\<close> the evaluation of an expression and \<open>run\<close> the evaluation of code against
      the variable bag.\<close>
  "expand ev run [] = Inr []"
| "expand ev run (c # s) =
     (case captureAt ''{{{'' ''}}}'' (c # s) of
        Some (expr, rest) \<Rightarrow> emit (map_sum id escapeMarkup (ev expr)) (expand ev run rest)
      | None \<Rightarrow>
         (case captureAt ''{{'' ''}}'' (c # s) of
            Some (expr, rest) \<Rightarrow> emit (ev expr) (expand ev run rest)
          | None \<Rightarrow>
             (case captureAt ''{%'' ''%}'' (c # s) of
                Some (code, rest) \<Rightarrow> emit (run code) (expand ev run rest)
              | None \<Rightarrow> emit (Inr [c]) (expand ev run s))))"
  by pat_completeness auto
termination
proof -
  have shorter: "lazyCapture close s = Some (body, rest) \<Longrightarrow> length rest < length s"
    for close s body rest
    by (induction s arbitrary: body) (auto split: if_splits option.splits)
  show ?thesis
    by (relation "measure (\<lambda>(ev, run, s). length s)")
       (auto simp: captureAt_def split: if_splits dest!: shorter)
qed

definition lookupVariable :: "(string \<times> string) list \<Rightarrow> string \<Rightarrow> unit + string" where
  \<comment> \<open>Modelled from the spec: the evaluation of an expression by the template engine of
      the lodash library. An expression that is the name of a variable of the bag has the
      value bound to it; the use of a name that the bag lacks fails.\<close>
  "lookupVariable variables expr =
     (case map_of variables expr of None \<Rightarrow> Inl () | Some v \<Rightarrow> Inr v)"

subsection \<open>Definitions used to state the properties\<close>

definition truncatedCopy :: "'c RetrievalChunk_scheme \<Rightarrow> int \<Rightarrow> 'c RetrievalChunk_scheme" where
  \<comment> \<open>The specification's words for the truncated chunk: a copy of the chunk with its
      content sliced to \<open>remaining\<close> characters and an ellipsis suffix appended.\<close>
  "truncatedCopy chunk remaining = chunk\<lparr>content := take (nat remaining) (content chunk) @ ''...''\<rparr>"

definition chunkOf :: "nat \<Rightarrow> real \<Rightarrow> RetrievalChunk" where
  \<comment> \<open>A test chunk: \<open>n\<close> letters of content with the given finite similarity.\<close>
  "chunkOf n s = \<lparr>content = replicate n (CHR ''a''), similarity = Num s\<rparr>"

definition cfgOf :: "int option \<Rightarrow> real option \<Rightarrow> bool option \<Rightarrow> unit RAGContextConfig" where
  \<comment> \<open>A test configuration without chunks of its own: budget, finite threshold and sort
      flag.\<close>
  "cfgOf mx mn srt =
     \<lparr>chunks = [], rewriteQuery = None, queryId = None,
      maxContextLength = mx, minSimilarity = map_option Num mn, sortBySimilarity = srt\<rparr>"

definition scoreValue :: "jsnum \<Rightarrow> real" where
  \<comment> \<open>The value of a finite score.\<close>
  "scoreValue s = (case s of Num x \<Rightarrow> x | PosInfinity \<Rightarrow> 0 | NegInfinity \<Rightarrow> 0 | NaN \<Rightarrow> 0)"

definition finiteScores :: "'c RetrievalChunk_scheme list \<Rightarrow> bool" where
  \<comment> \<open>Every chunk of the list has a finite score.\<close>
  "finiteScores cs =
     list_all (\<lambda>c. case similarity c of Num x \<Rightarrow> True | PosInfinity \<Rightarrow> False
                    | NegInfinity \<Rightarrow> False | NaN \<Rightarrow> False) cs"

definition expansionFails ::
  "('v, 'e) template \<Rightarrow> (string \<times> 'v) list \<Rightarrow> 'm ConversationMessage_scheme \<Rightarrow> bool" where
  \<comment> \<open>The message has placeholder markers and its expansion throws.\<close>
  "expansionFails template variables message =
     (hasPlaceholders (msg_content message) \<and>
      (case runTemplate template variables (msg_content message) of
         Inl error \<Rightarrow> True
       | Inr processedContent \<Rightarrow> False))"

definition expansionChanges ::
  "('v, 'e) template \<Rightarrow> (string \<times> 'v) list \<Rightarrow> 'm ConversationMessage_scheme \<Rightarrow> bool" where
  \<comment> \<open>The message has placeholder markers and its expansion gives another text.\<close>
  "expansionChanges template variables message =
     (hasPlaceholders (msg_content message) \<and>
      (case runTemplate template variables (msg_content message) of
         Inl error \<Rightarrow> False
       | Inr processedContent \<Rightarrow> processedContent \<noteq> msg_content message))"

definition expandedMessage ::
  "('v, 'e) template \<Rightarrow> (string \<times> 'v) list \<Rightarrow> 'm ConversationMessage_scheme \<Rightarrow> 'm ConversationMessage_scheme" where
  \<comment> \<open>The message that the callback of \<^verbatim>\<open>messages.map\<close> returns for a message.\<close>
  "expandedMessage template variables message =
     (if hasPlaceholders (msg_content message)
      then (case runTemplate template variables (msg_content message) of
              Inl error \<Rightarrow> message
            | Inr processedContent \<Rightarrow> message\<lparr>msg_content := processedContent\<rparr>)
      else message)"

definition messageOf :: "string \<Rightarrow> string \<Rightarrow> ConversationMessage" where
  \<comment> \<open>A test message with the given role and content.\<close>
  "messageOf r c = \<lparr>msg_id = ''m'', role = r, msg_content = c\<rparr>"

definition contextOf :: "ConversationMessage list \<Rightarrow> (unit, unit) PipelineContext" where
  \<comment> \<open>A test context with the given messages and empty metadata, not yet executed.\<close>
  "contextOf ms = \<lparr>messages = ms, metadata = Map.empty, isExecuted = False\<rparr>"

definition testTemplate :: "(string, string) template" where
  \<comment> \<open>A test template engine: the text \<^verbatim>\<open>{{boom}}\<close> does not compile; every other text
      compiles to a greeting of the variable \<^verbatim>\<open>name\<close>, which must be bound.\<close>
  "testTemplate text =
     (if text = ''{{boom}}'' then Inl ''SyntaxError''
      else Inr (\<lambda>variables.
             case map_of variables ''name'' of
               None \<Rightarrow> Inl ''ReferenceError''
             | Some v \<Rightarrow> Inr (''Hello '' @ v)))"

definition testContext :: "(unit, unit) PipelineContext" where
  \<comment> \<open>A test context of three messages: one that expands, one that fails, one without markers.\<close>
  "testContext = contextOf [messageOf ''user'' ''{{greeting}}'', messageOf ''user'' ''{{boom}}'',
                            messageOf ''assistant'' ''plain'']"

section \<open>Properties of the chunk budgeting\<close>

subsection \<open>Truncation\<close>

lemma substring_from_zero: "0 \<le> n \<Longrightarrow> substring s 0 n = take (nat n) s"
  by (simp add: substring_def clampIndex_def Let_def min_def)

lemma totalContentLength_Nil [simp]: "totalContentLength [] = 0"
  by (simp add: totalContentLength_def)

lemma totalContentLength_Cons [simp]:
  "totalContentLength (c # cs) = length (content c) + totalContentLength cs"
  by (simp add: totalContentLength_def)

lemma totalContentLength_append [simp]:
  "totalContentLength (xs @ ys) = totalContentLength xs + totalContentLength ys"
  by (simp add: totalContentLength_def)

lemma totalContentLength_take_Suc:
  "k < length cs \<Longrightarrow>
   totalContentLength (take (Suc k) cs) = totalContentLength (take k cs) + length (content (cs ! k))"
  by (simp add: take_Suc_conv_app_nth)

text \<open>
  The loop, started with running total \<open>t\<close>, keeps the \<open>k\<close> leading chunks whose running
  totals fit, and at chunk \<open>k\<close>, the first that does not fit, emits at most one truncated
  copy and stops.
\<close>

lemma truncateLoop_shape:
  "\<exists>k\<le>length cs.
      (\<forall>i<k. t + int (totalContentLength (take (Suc i) cs)) \<le> m) \<and>
      (k < length cs \<longrightarrow> t + int (totalContentLength (take (Suc k) cs)) > m) \<and>
      truncateLoop m t cs =
        take k cs @
        (if k < length cs \<and> m - (t + int (totalContentLength (take k cs))) > 100
         then [truncatedCopy (cs ! k) (m - (t + int (totalContentLength (take k cs))))] else [])"
proof (induction cs arbitrary: t)
  case Nil
  show ?case by simp
next
  case (Cons c cs)
  show ?case
  proof (cases "t + int (length (content c)) \<le> m")
    case True
    from Cons.IH [of "t + int (length (content c))"] obtain k where k:
      "k \<le> length cs"
      "\<forall>i<k. t + int (length (content c)) + int (totalContentLength (take (Suc i) cs)) \<le> m"
      "k < length cs \<longrightarrow> t + int (length (content c)) + int (totalContentLength (take (Suc k) cs)) > m"
      "truncateLoop m (t + int (length (content c))) cs =
        take k cs @
        (if k < length cs \<and> m - (t + int (length (content c)) + int (totalContentLength (take k cs))) > 100
         then [truncatedCopy (cs ! k) (m - (t + int (length (content c)) + int (totalContentLength (take k cs))))] else [])"
      by blast
    have fit: "\<forall>i<Suc k. t + int (totalContentLength (take (Suc i) (c # cs))) \<le> m"
    proof (intro allI impI)
      fix i assume "i < Suc k"
      show "t + int (totalContentLength (take (Suc i) (c # cs))) \<le> m"
      proof (cases i)
        case 0
        with True show ?thesis by simp
      next
        case (Suc j)
        with \<open>i < Suc k\<close> have "j < k" by simp
        with k(2) have "t + int (length (content c)) + int (totalContentLength (take (Suc j) cs)) \<le> m"
          by blast
        with Suc show ?thesis by simp
      qed
    qed
    have "Suc k \<le> length (c # cs)" using k(1) by simp
    moreover have "Suc k < length (c # cs) \<longrightarrow> t + int (totalContentLength (take (Suc (Suc k)) (c # cs))) > m"
      using k(3) by (simp add: add.assoc)
    moreover have "truncateLoop m t (c # cs) =
        take (Suc k) (c # cs) @
        (if Suc k < length (c # cs) \<and> m - (t + int (totalContentLength (take (Suc k) (c # cs)))) > 100
         then [truncatedCopy ((c # cs) ! Suc k) (m - (t + int (totalContentLength (take (Suc k) (c # cs)))))] else [])"
      using True k(4) by (simp add: Let_def add.assoc)
    ultimately show ?thesis using fit by blast
  next
    case False
    have "truncateLoop m t (c # cs) =
        take 0 (c # cs) @
        (if 0 < length (c # cs) \<and> m - (t + int (totalContentLength (take 0 (c # cs)))) > 100
         then [truncatedCopy ((c # cs) ! 0) (m - (t + int (totalContentLength (take 0 (c # cs)))))] else [])"
      using False by (simp add: truncatedCopy_def substring_from_zero Let_def)
    moreover have "0 < length (c # cs) \<longrightarrow> t + int (totalContentLength (take (Suc 0) (c # cs))) > m"
      using False by simp
    ultimately show ?thesis by (intro exI [of _ 0]) simp
  qed
qed

lemma truncatedCopy_length:
  assumes "k < length cs" and "100 < r" and "r = m - int (totalContentLength (take k cs))"
    and "m < int (totalContentLength (take (Suc k) cs))"
  shows "length (content (truncatedCopy (cs ! k) r)) = nat r + 3"
    and "100 < length (content (truncatedCopy (cs ! k) r))"
proof -
  have "nat r \<le> length (content (cs ! k))"
    using assms by (simp add: totalContentLength_take_Suc)
  then show "length (content (truncatedCopy (cs ! k) r)) = nat r + 3"
    by (simp add: truncatedCopy_def)
  with assms(2) show "100 < length (content (truncatedCopy (cs ! k) r))"
    by simp
qed

text \<open>
  Claim C2. Truncation walks the chunks in order and accumulates content lengths. With \<open>k\<close>
  the index of the first chunk that does not fit whole (every running total up to chunk
  \<open>k - 1\<close> is within \<open>maxLength\<close>, the one through chunk \<open>k\<close> is not), the result is the
  \<open>k\<close> leading chunks, followed by a truncated copy of chunk \<open>k\<close> exactly when the
  remaining budget is strictly greater than 100; no later chunk is included. A truncated
  copy holds \<open>remaining\<close> characters of the chunk and the three of the ellipsis, so it is
  never shorter than 100 characters. Three chunks of 80 characters under a budget of 150
  give the first chunk alone.
\<close>

theorem truncateByLength_stops_at_first_misfit:
  "(\<exists>k\<le>length cs.
      (\<forall>i<k. int (totalContentLength (take (Suc i) cs)) \<le> maxLength) \<and>
      (k < length cs \<longrightarrow> maxLength < int (totalContentLength (take (Suc k) cs))) \<and>
      truncateByLength cs maxLength =
        take k cs @
        (if k < length cs \<and> 100 < maxLength - int (totalContentLength (take k cs))
         then [truncatedCopy (cs ! k) (maxLength - int (totalContentLength (take k cs)))] else []) \<and>
      (k < length cs \<and> 100 < maxLength - int (totalContentLength (take k cs)) \<longrightarrow>
         length (content (truncatedCopy (cs ! k) (maxLength - int (totalContentLength (take k cs)))))
           = nat (maxLength - int (totalContentLength (take k cs))) + 3 \<and>
         100 < length (content (truncatedCopy (cs ! k) (maxLength - int (totalContentLength (take k cs))))))) \<and>
   (length (content a) = 80 \<and> length (content b) = 80 \<and> length (content c) = 80 \<longrightarrow>
      truncateByLength [a, b, c] 150 = [a])"
proof (intro conjI impI)
  from truncateLoop_shape [of cs 0 maxLength] obtain k where k:
    "k \<le> length cs"
    "\<forall>i<k. int (totalContentLength (take (Suc i) cs)) \<le> maxLength"
    "k < length cs \<longrightarrow> maxLength < int (totalContentLength (take (Suc k) cs))"
    "truncateByLength cs maxLength =
        take k cs @
        (if k < length cs \<and> 100 < maxLength - int (totalContentLength (take k cs))
         then [truncatedCopy (cs ! k) (maxLength - int (totalContentLength (take k cs)))] else [])"
    unfolding truncateByLength_def by (elim exE conjE) (simp add: add.commute)
  have "k < length cs \<and> 100 < maxLength - int (totalContentLength (take k cs)) \<longrightarrow>
         length (content (truncatedCopy (cs ! k) (maxLength - int (totalContentLength (take k cs)))))
           = nat (maxLength - int (totalContentLength (take k cs))) + 3 \<and>
         100 < length (content (truncatedCopy (cs ! k) (maxLength - int (totalContentLength (take k cs)))))"
    using k(3) truncatedCopy_length [of k cs _ maxLength] by blast
  with k show "\<exists>k\<le>length cs.
      (\<forall>i<k. int (totalContentLength (take (Suc i) cs)) \<le> maxLength) \<and>
      (k < length cs \<longrightarrow> maxLength < int (totalContentLength (take (Suc k) cs))) \<and>
      truncateByLength cs maxLength =
        take k cs @
        (if k < length cs \<and> 100 < maxLength - int (totalContentLength (take k cs))
         then [truncatedCopy (cs ! k) (maxLength - int (totalContentLength (take k cs)))] else []) \<and>
      (k < length cs \<and> 100 < maxLength - int (totalContentLength (take k cs)) \<longrightarrow>
         length (content (truncatedCopy (cs ! k) (maxLength - int (totalContentLength (take k cs)))))
           = nat (maxLength - int (totalContentLength (take k cs))) + 3 \<and>
         100 < length (content (truncatedCopy (cs ! k) (maxLength - int (totalContentLength (take k cs))))))"
    by blast
next
  assume "length (content a) = 80 \<and> length (content b) = 80 \<and> length (content c) = 80"
  then show "truncateByLength [a, b, c] 150 = [a]"
    by (simp add: truncateByLength_def)
qed

theorem truncateByLength_stops_at_first_misfit_witness:
  "length (content (chunkOf 80 (9/10))) = 80 \<and>
   truncateByLength [chunkOf 80 (9/10), chunkOf 80 (4/5), chunkOf 80 (7/10)] 150 = [chunkOf 80 (9/10)] \<and>
   truncateByLength [chunkOf 80 (9/10), chunkOf 200 (4/5)] 200
     = [chunkOf 80 (9/10), truncatedCopy (chunkOf 200 (4/5)) 120] \<and>
   100 < length (content (truncatedCopy (chunkOf 200 (4/5)) 120))"
proof -
  let ?cs = "[chunkOf 80 (9/10), chunkOf 200 (4/5)]"
  note r = truncateByLength_stops_at_first_misfit
             [of ?cs 200 "chunkOf 80 (9/10)" "chunkOf 80 (4/5)" "chunkOf 80 (7/10)"]
  have l: "length (content (chunkOf 80 (9/10))) = 80"
       "length (content (chunkOf 80 (4/5))) = 80" "length (content (chunkOf 80 (7/10))) = 80"
    by (simp_all add: chunkOf_def)
  have e: "truncateByLength [chunkOf 80 (9/10), chunkOf 80 (4/5), chunkOf 80 (7/10)] 150 = [chunkOf 80 (9/10)]"
    using r l by blast
  have t1: "totalContentLength (take (Suc 0) ?cs) = 80"
    and t2: "totalContentLength (take (Suc (Suc 0)) ?cs) = 280"
    by (simp_all add: chunkOf_def)
  from r obtain k where k:
    "k \<le> length ?cs"
    "\<forall>i<k. int (totalContentLength (take (Suc i) ?cs)) \<le> 200"
    "k < length ?cs \<longrightarrow> 200 < int (totalContentLength (take (Suc k) ?cs))"
    "truncateByLength ?cs 200 =
        take k ?cs @
        (if k < length ?cs \<and> 100 < 200 - int (totalContentLength (take k ?cs))
         then [truncatedCopy (?cs ! k) (200 - int (totalContentLength (take k ?cs)))] else [])"
    "k < length ?cs \<and> 100 < 200 - int (totalContentLength (take k ?cs)) \<longrightarrow>
       100 < length (content (truncatedCopy (?cs ! k) (200 - int (totalContentLength (take k ?cs)))))"
    by blast
  have "k \<noteq> 0"
  proof
    assume "k = 0"
    with k(3) t1 show False by simp
  qed
  moreover have "k \<noteq> Suc (Suc 0)"
  proof
    assume "k = Suc (Suc 0)"
    with k(2) have "int (totalContentLength (take (Suc (Suc 0)) ?cs)) \<le> 200" by blast
    with t2 show False by simp
  qed
  ultimately have k1: "k = Suc 0" using k(1) by (simp add: le_Suc_eq)
  have t: "truncateByLength ?cs 200 = [chunkOf 80 (9/10), truncatedCopy (chunkOf 200 (4/5)) 120]"
    using k(4) unfolding k1 by (simp add: l)
  have b: "100 < length (content (truncatedCopy (chunkOf 200 (4/5)) 120))"
    using k(5) unfolding k1 by (simp add: l)
  show ?thesis by (intro conjI l(1) e t b)
qed

subsection \<open>The length budget\<close>

text \<open>
  Claim C1 says that the total content length of the chunks returned by the budgeting step
  is at most \<open>maxContextLength\<close>, the ellipsis of a truncated last chunk included. The
  code slices the chunk that does not fit to exactly the remaining budget and then appends
  the three characters of the ellipsis: for one chunk of 200 characters and a budget of
  150, \<open>truncateByLength\<close> returns a chunk with 153 characters of content. The enclosing
  \<open>processRetrievalChunks\<close> calls it with these arguments for a configuration with this
  budget and sorting off, and then throws at its next statement, the call of \<^verbatim>\<open>log\<close>.
\<close>

theorem truncated_chunk_exceeds_maxContextLength:
  "truncateByLength [chunkOf 200 (9/10)] 150
     = [\<lparr>content = replicate 150 (CHR ''a'') @ ''...'', similarity = Num (9/10)\<rparr>] \<and>
   totalContentLength (truncateByLength [chunkOf 200 (9/10)] 150) = 153 \<and>
   \<not> int (totalContentLength (truncateByLength [chunkOf 200 (9/10)] 150)) \<le> 150 \<and>
   processRetrievalChunks ((cfgOf (Some 150) None (Some False))\<lparr>chunks := [chunkOf 200 (9/10)]\<rparr>)
     (chunks ((cfgOf (Some 150) None (Some False))\<lparr>chunks := [chunkOf 200 (9/10)]\<rparr>))
     = Inl (ReferenceError ''log'')"
proof -
  have e: "truncateByLength [chunkOf 200 (9/10)] 150
     = [\<lparr>content = replicate 150 (CHR ''a'') @ ''...'', similarity = Num (9/10)\<rparr>]"
    by (simp add: truncateByLength_def chunkOf_def substring_def clampIndex_def)
  have p: "processRetrievalChunks ((cfgOf (Some 150) None (Some False))\<lparr>chunks := [chunkOf 200 (9/10)]\<rparr>)
     (chunks ((cfgOf (Some 150) None (Some False))\<lparr>chunks := [chunkOf 200 (9/10)]\<rparr>))
     = Inl (ReferenceError ''log'')"
    by (simp add: processRetrievalChunks_def cfgOf_def filterStep_def sortStep_def truncateStep_def
          thenDo_def logCall_def)
  show ?thesis unfolding e using p by simp
qed

text \<open>
  In general, under a budget of more than 100 characters that the first chunk alone
  exceeds, the total is the budget and three; and no result exceeds a non-negative budget
  by more than these three characters.
\<close>

lemma truncateByLength_total_le:
  assumes "0 \<le> m"
  shows "int (totalContentLength (truncateByLength cs m)) \<le> m + 3"
proof -
  from truncateLoop_shape [of cs 0 m] obtain k where k:
    "k \<le> length cs"
    "\<forall>i<k. int (totalContentLength (take (Suc i) cs)) \<le> m"
    "k < length cs \<longrightarrow> m < int (totalContentLength (take (Suc k) cs))"
    "truncateByLength cs m =
        take k cs @
        (if k < length cs \<and> 100 < m - int (totalContentLength (take k cs))
         then [truncatedCopy (cs ! k) (m - int (totalContentLength (take k cs)))] else [])"
    unfolding truncateByLength_def by (elim exE conjE) (simp add: add.commute)
  have whole: "int (totalContentLength (take k cs)) \<le> m"
  proof (cases k)
    case 0
    with assms show ?thesis by simp
  next
    case (Suc j)
    with k(2) show ?thesis by simp
  qed
  show ?thesis
  proof (cases "k < length cs \<and> 100 < m - int (totalContentLength (take k cs))")
    case True
    then have "length (content (truncatedCopy (cs ! k) (m - int (totalContentLength (take k cs)))))
                 = nat (m - int (totalContentLength (take k cs))) + 3"
      using k(3) truncatedCopy_length [of k cs _ m] by blast
    with True k(4) show ?thesis by simp
  next
    case False
    with k(4) whole show ?thesis by auto
  qed
qed

lemma truncateByLength_overshoot:
  assumes "cs \<noteq> []" and "int (length (content (hd cs))) > m" and "100 < m"
  shows "int (totalContentLength (truncateByLength cs m)) = m + 3"
  using assms by (cases cs) (simp_all add: truncateByLength_def substring_from_zero Let_def)

subsection \<open>Where \<open>processRetrievalChunks\<close> returns\<close>

text \<open>
  Each of the three steps ends with a call of \<^verbatim>\<open>log\<close>. The method returns only when no
  step is taken: no threshold, sorting explicitly off, and no budget or the budget 0. It
  then returns the list it was given; in every other case it throws.
\<close>

lemma thenDo_logCall [simp]: "thenDo logCall f = Inl (ReferenceError ''log'')"
  by (simp add: thenDo_def logCall_def)

lemma thenDo_Inr [simp]: "thenDo (Inr a) f = f a"
  by (simp add: thenDo_def)

lemma thenDo_Inl [simp]: "thenDo (Inl e) f = Inl e"
  by (simp add: thenDo_def)

lemma processRetrievalChunks_result:
  "processRetrievalChunks cfg cs =
     (if minSimilarity cfg = None \<and> sortBySimilarity cfg = Some False \<and>
         (maxContextLength cfg = None \<or> maxContextLength cfg = Some 0)
      then Inr cs else Inl (ReferenceError ''log''))"
  by (auto simp: processRetrievalChunks_def filterStep_def sortStep_def truncateStep_def Let_def
           split: option.splits)

subsection \<open>Similarity threshold\<close>

lemma filterBySimilarity_threshold:
  "c \<in> set (filterBySimilarity m cs) \<Longrightarrow> jsGe (similarity c) m"
  by (simp add: filterBySimilarity_def)

lemma filterBySimilarity_subseq: "subseq (filterBySimilarity m cs) cs"
  by (simp add: filterBySimilarity_def)


subsection \<open>Sorting\<close>

text \<open>
  On chunks of finite scores the comparator is a consistent ordering, and the sort of line
  98 is the stable sort by descending score.
\<close>

lemma finiteScores_Num:
  "finiteScores cs \<Longrightarrow> c \<in> set cs \<Longrightarrow> similarity c = Num (scoreValue (similarity c))"
  by (auto simp: finiteScores_def list_all_iff scoreValue_def split: jsnum.splits)

lemma bySimilarityDesc_finite:
  assumes "similarity x = Num a" and "similarity y = Num b"
  shows "bySimilarityDesc x y = Positive \<longleftrightarrow> \<not> (- scoreValue (similarity x) \<le> - scoreValue (similarity y))"
  using assms by (simp add: bySimilarityDesc_def scoreValue_def)

lemma insertBy_insort:
  assumes "finiteScores (x # ys)"
  shows "insertBy bySimilarityDesc x ys = insort_key (\<lambda>c. - scoreValue (similarity c)) x ys"
  using assms
proof (induction ys)
  case Nil
  show ?case by simp
next
  case (Cons y ys)
  have x: "similarity x = Num (scoreValue (similarity x))"
    using Cons.prems by (intro finiteScores_Num [of "x # y # ys"]) simp_all
  have y: "similarity y = Num (scoreValue (similarity y))"
    using Cons.prems by (intro finiteScores_Num [of "x # y # ys"]) simp_all
  from Cons.prems have "finiteScores (x # ys)"
    by (simp add: finiteScores_def)
  with Cons.IH have IH: "insertBy bySimilarityDesc x ys = insort_key (\<lambda>c. - scoreValue (similarity c)) x ys"
    by simp
  show ?case
    using bySimilarityDesc_finite [OF x y] IH by simp
qed

lemma finiteScores_sort_key: "finiteScores (sort_key f cs) = finiteScores cs"
  by (simp add: finiteScores_def list_all_iff)

lemma sortBy_sort_key:
  "finiteScores cs \<Longrightarrow> sortBy bySimilarityDesc cs = sort_key (\<lambda>c. - scoreValue (similarity c)) cs"
proof (induction cs)
  case Nil
  show ?case by (simp add: sortBy_def)
next
  case (Cons c cs)
  then have f: "finiteScores cs"
    and IH: "sortBy bySimilarityDesc cs = sort_key (\<lambda>c. - scoreValue (similarity c)) cs"
    by (simp_all add: finiteScores_def)
  from Cons.prems f have "finiteScores (c # sort_key (\<lambda>c. - scoreValue (similarity c)) cs)"
    using finiteScores_sort_key [of "\<lambda>c. - scoreValue (similarity c)" cs]
    by (simp add: finiteScores_def)
  then have "insertBy bySimilarityDesc c (sort_key (\<lambda>c. - scoreValue (similarity c)) cs)
             = insort_key (\<lambda>c. - scoreValue (similarity c)) c (sort_key (\<lambda>c. - scoreValue (similarity c)) cs)"
    by (rule insertBy_insort)
  then show ?case
    using IH by (simp add: sortBy_def sort_key_def)
qed

lemma jsGe_finite:
  assumes "similarity a = Num (scoreValue (similarity a))" and "similarity b = Num (scoreValue (similarity b))"
    and "- scoreValue (similarity a) \<le> - scoreValue (similarity b)"
  shows "jsGe (similarity a) (similarity b)"
proof -
  have "jsGe (Num (scoreValue (similarity a))) (Num (scoreValue (similarity b)))"
    using assms(3) by simp
  with assms(1,2) show ?thesis by simp
qed

lemma sortBy_sorted:
  assumes "finiteScores cs"
  shows "sorted_wrt (\<lambda>a b. jsGe (similarity a) (similarity b)) (sortBy bySimilarityDesc cs)"
proof -
  let ?k = "\<lambda>c. - scoreValue (similarity c)"
  have eq: "sortBy bySimilarityDesc cs = sort_key ?k cs"
    using assms by (rule sortBy_sort_key)
  have s: "sorted_wrt (\<lambda>a b. ?k a \<le> ?k b) (sort_key ?k cs)"
    using sorted_sort_key [of ?k cs] by (simp add: sorted_map)
  have "sorted_wrt (\<lambda>a b. jsGe (similarity a) (similarity b)) (sort_key ?k cs)"
  proof (rule sorted_wrt_mono_rel [OF _ s])
    fix a b
    assume a: "a \<in> set (sort_key ?k cs)" and b: "b \<in> set (sort_key ?k cs)" and le: "?k a \<le> ?k b"
    have fs: "finiteScores (sort_key ?k cs)"
      using assms by (simp add: finiteScores_sort_key)
    have "similarity a = Num (scoreValue (similarity a))"
      using fs a by (rule finiteScores_Num)
    moreover have "similarity b = Num (scoreValue (similarity b))"
      using fs b by (rule finiteScores_Num)
    ultimately show "jsGe (similarity a) (similarity b)"
      using le by (rule jsGe_finite)
  qed
  then show ?thesis unfolding eq .
qed

lemma filter_score_eq:
  assumes "finiteScores cs"
  shows "filter (\<lambda>c. similarity c = Num v) cs = filter (\<lambda>c. - scoreValue (similarity c) = - v) cs"
proof (rule filter_cong [OF refl])
  fix c assume "c \<in> set cs"
  with assms have "similarity c = Num (scoreValue (similarity c))"
    by (rule finiteScores_Num)
  then show "(similarity c = Num v) = (- scoreValue (similarity c) = - v)"
    by (metis jsnum.inject neg_equal_iff_equal)
qed

lemma filter_score_none:
  assumes "finiteScores cs" and "\<And>v. k \<noteq> Num v"
  shows "filter (\<lambda>c. similarity c = k) cs = []"
proof -
  have "\<forall>c\<in>set cs. similarity c \<noteq> k"
  proof
    fix c assume "c \<in> set cs"
    with assms(1) have "similarity c = Num (scoreValue (similarity c))"
      by (rule finiteScores_Num)
    with assms(2) show "similarity c \<noteq> k" by metis
  qed
  then show ?thesis by (simp add: filter_empty_conv)
qed

lemma sortBy_stable:
  assumes "finiteScores cs"
  shows "filter (\<lambda>c. similarity c = k) (sortBy bySimilarityDesc cs) = filter (\<lambda>c. similarity c = k) cs"
proof -
  let ?k = "\<lambda>c. - scoreValue (similarity c)"
  have eq: "sortBy bySimilarityDesc cs = sort_key ?k cs"
    using assms by (rule sortBy_sort_key)
  have fs: "finiteScores (sort_key ?k cs)"
    using assms by (simp add: finiteScores_sort_key)
  show ?thesis
  proof (cases "\<exists>v. k = Num v")
    case True
    then obtain v where v: "k = Num v" by blast
    show ?thesis
      unfolding eq v filter_score_eq [OF assms] filter_score_eq [OF fs]
      by (rule sort_key_stable)
  next
    case False
    then have n: "\<And>v. k \<noteq> Num v" by blast
    show ?thesis
      unfolding eq filter_score_none [OF assms n] filter_score_none [OF fs n] ..
  qed
qed


section \<open>Properties of the RAG injection stage\<close>

lemma findLastUserFrom_None:
  "findLastUserFrom ms n = None \<longleftrightarrow> (\<forall>i<n. role (ms ! i) \<noteq> ''user'')"
  by (induction n) (auto simp: less_Suc_eq)

lemma findLastUserMessage_None:
  "findLastUserMessage ms = None \<longleftrightarrow> (\<forall>m\<in>set ms. role m \<noteq> ''user'')"
  by (simp add: findLastUserMessage_def findLastUserFrom_None all_set_conv_all_nth)

text \<open>
  Every path of \<open>doProcess\<close> ends with a call of \<^verbatim>\<open>log\<close> before its \<^verbatim>\<open>return\<close>: lines 41,
  49, 57 and 79, and the calls inside \<open>processRetrievalChunks\<close>. The method throws for
  every configuration and every context.
\<close>

lemma RAGContextInjector_doProcess_throws:
  "RAGContextInjector_doProcess T D cfg context = Inl (ReferenceError ''log'')"
proof (cases "processRetrievalChunks cfg (chunks cfg)")
  case (Inl e)
  then have "e = ReferenceError ''log''"
    by (simp add: processRetrievalChunks_result split: if_splits)
  with Inl show ?thesis
    by (simp add: RAGContextInjector_doProcess_def Let_def)
next
  case (Inr p)
  then show ?thesis
    by (simp add: RAGContextInjector_doProcess_def Let_def split: option.splits)
qed

text \<open>
  Claim C4 says that for a context without a message of role \<open>user\<close> the stage returns
  the context only marked as executed, with every message and the metadata unchanged. The
  code reaches the branch of line 56 and there calls \<^verbatim>\<open>log.extend\<close> before its
  \<^verbatim>\<open>return\<close>: the stage throws and returns no context. For one chunk, sorting off, and a
  context of a system and an assistant message, \<open>processRetrievalChunks\<close> returns the
  chunk, no user message is found, and \<open>doProcess\<close> throws.
\<close>

theorem RAG_without_user_message_throws:
  "processRetrievalChunks ((cfgOf None None (Some False))\<lparr>chunks := [chunkOf 5 (9/10)]\<rparr>)
     (chunks ((cfgOf None None (Some False))\<lparr>chunks := [chunkOf 5 (9/10)]\<rparr>))
     = Inr [chunkOf 5 (9/10)] \<and>
   findLastUserMessage (messages (contextOf [messageOf ''system'' ''s'', messageOf ''assistant'' ''a'']))
     = None \<and>
   RAGContextInjector_doProcess T D ((cfgOf None None (Some False))\<lparr>chunks := [chunkOf 5 (9/10)]\<rparr>)
     (contextOf [messageOf ''system'' ''s'', messageOf ''assistant'' ''a''])
     = Inl (ReferenceError ''log'')"
proof -
  have p: "processRetrievalChunks ((cfgOf None None (Some False))\<lparr>chunks := [chunkOf 5 (9/10)]\<rparr>)
     (chunks ((cfgOf None None (Some False))\<lparr>chunks := [chunkOf 5 (9/10)]\<rparr>))
     = Inr [chunkOf 5 (9/10)]"
    by (simp add: processRetrievalChunks_result cfgOf_def)
  have u: "findLastUserMessage (messages (contextOf [messageOf ''system'' ''s'', messageOf ''assistant'' ''a'']))
     = None"
    by (simp add: findLastUserMessage_def contextOf_def messageOf_def numeral_2_eq_2)
  have d: "RAGContextInjector_doProcess T D ((cfgOf None None (Some False))\<lparr>chunks := [chunkOf 5 (9/10)]\<rparr>)
     (contextOf [messageOf ''system'' ''s'', messageOf ''assistant'' ''a''])
     = Inl (ReferenceError ''log'')"
    using p u by (simp add: RAGContextInjector_doProcess_def cloneContext_def Let_def)
  show ?thesis by (intro conjI p u d)
qed


text \<open>
  The statistics themselves are reached only with the list that the configuration holds,
  which the guard of line 40 has found not empty: where \<open>processRetrievalChunks\<close> returns
  to \<open>doProcess\<close>, the chunks it returns are not empty.
\<close>

lemma processRetrievalChunks_returns_nonempty:
  "chunks cfg \<noteq> [] \<Longrightarrow> processRetrievalChunks cfg (chunks cfg) = Inr p \<Longrightarrow> p \<noteq> []"
  by (simp add: processRetrievalChunks_result split: if_splits)

section \<open>Properties of placeholder detection\<close>

lemma dotPlusLazy_iff:
  "dotPlusLazy close s \<longleftrightarrow>
     (\<exists>body after. s = body @ close @ after \<and> body \<noteq> [] \<and> (\<forall>c\<in>set body. \<not> isLineTerminator c))"
proof
  show "dotPlusLazy close s \<Longrightarrow>
     \<exists>body after. s = body @ close @ after \<and> body \<noteq> [] \<and> (\<forall>c\<in>set body. \<not> isLineTerminator c)"
  proof (induction s)
    case Nil
    then show ?case by simp
  next
    case (Cons c s)
    then have c: "\<not> isLineTerminator c" and d: "prefix close s \<or> dotPlusLazy close s" by simp_all
    from d show ?case
    proof
      assume "prefix close s"
      then obtain after where "s = close @ after" by (auto simp: prefix_def)
      then have "c # s = [c] @ close @ after \<and> [c] \<noteq> [] \<and> (\<forall>x\<in>set [c]. \<not> isLineTerminator x)"
        using c by simp
      then show ?thesis by blast
    next
      assume "dotPlusLazy close s"
      with Cons.IH obtain body after where
        b: "s = body @ close @ after" "body \<noteq> []" "\<forall>x\<in>set body. \<not> isLineTerminator x"
        by blast
      then have "c # s = (c # body) @ close @ after \<and> c # body \<noteq> [] \<and>
                 (\<forall>x\<in>set (c # body). \<not> isLineTerminator x)"
        using c by simp
      then show ?thesis by blast
    qed
  qed
next
  assume "\<exists>body after. s = body @ close @ after \<and> body \<noteq> [] \<and> (\<forall>c\<in>set body. \<not> isLineTerminator c)"
  then obtain body after where
    b: "s = body @ close @ after" "body \<noteq> []" "\<forall>c\<in>set body. \<not> isLineTerminator c"
    by blast
  from b(2,3) have "dotPlusLazy close (body @ close @ after)"
  proof (induction body)
    case Nil
    then show ?case by simp
  next
    case (Cons c body)
    show ?case
    proof (cases "body = []")
      case True
      with Cons.prems show ?thesis by simp
    next
      case False
      with Cons show ?thesis by simp
    qed
  qed
  with b(1) show "dotPlusLazy close s" by simp
qed

lemma matchAt_iff:
  "matchAt opn close s \<longleftrightarrow>
     (\<exists>body after. s = opn @ body @ close @ after \<and> body \<noteq> [] \<and> (\<forall>c\<in>set body. \<not> isLineTerminator c))"
proof
  assume "matchAt opn close s"
  then have p: "prefix opn s" and d: "dotPlusLazy close (drop (length opn) s)"
    by (simp_all add: matchAt_def)
  from p obtain t where t: "s = opn @ t" by (auto simp: prefix_def)
  with d have "dotPlusLazy close t" by simp
  then obtain body after where "t = body @ close @ after" "body \<noteq> []" "\<forall>c\<in>set body. \<not> isLineTerminator c"
    unfolding dotPlusLazy_iff by blast
  with t show "\<exists>body after. s = opn @ body @ close @ after \<and> body \<noteq> [] \<and> (\<forall>c\<in>set body. \<not> isLineTerminator c)"
    by blast
next
  assume "\<exists>body after. s = opn @ body @ close @ after \<and> body \<noteq> [] \<and> (\<forall>c\<in>set body. \<not> isLineTerminator c)"
  then obtain body after where
    b: "s = opn @ body @ close @ after" "body \<noteq> []" "\<forall>c\<in>set body. \<not> isLineTerminator c"
    by blast
  then have "dotPlusLazy close (body @ close @ after)"
    unfolding dotPlusLazy_iff by blast
  with b(1) show "matchAt opn close s" by (simp add: matchAt_def)
qed

lemma regexTest_iff_suffix: "regexTest opn close s \<longleftrightarrow> (\<exists>before t. s = before @ t \<and> matchAt opn close t)"
proof (induction s)
  case Nil
  show ?case by simp
next
  case (Cons c s)
  note IH = Cons.IH
  show ?case
  proof
    assume "regexTest opn close (c # s)"
    then consider "matchAt opn close (c # s)" | "regexTest opn close s" by auto
    then show "\<exists>before t. c # s = before @ t \<and> matchAt opn close t"
    proof cases
      case 1
      then have "c # s = [] @ (c # s) \<and> matchAt opn close (c # s)" by simp
      then show ?thesis by blast
    next
      case 2
      with IH obtain before t where "s = before @ t" "matchAt opn close t" by blast
      then have "c # s = (c # before) @ t \<and> matchAt opn close t" by simp
      then show ?thesis by blast
    qed
  next
    assume "\<exists>before t. c # s = before @ t \<and> matchAt opn close t"
    then obtain before t where bt: "c # s = before @ t" "matchAt opn close t" by blast
    show "regexTest opn close (c # s)"
    proof (cases before)
      case Nil
      with bt have "matchAt opn close (c # s)" by simp
      then show ?thesis by simp
    next
      case (Cons b before')
      with bt have "s = before' @ t" by simp
      with bt(2) IH have "regexTest opn close s" by blast
      then show ?thesis by simp
    qed
  qed
qed

lemma regexTest_iff_containsMarker: "regexTest opn close text \<longleftrightarrow> containsMarker opn close text"
proof
  assume "regexTest opn close text"
  then obtain before t where t: "text = before @ t" "matchAt opn close t"
    unfolding regexTest_iff_suffix by blast
  from t(2) obtain body after where
    "t = opn @ body @ close @ after" "body \<noteq> []" "\<forall>c\<in>set body. \<not> isLineTerminator c"
    unfolding matchAt_iff by blast
  with t(1) show "containsMarker opn close text"
    unfolding containsMarker_def by blast
next
  assume "containsMarker opn close text"
  then obtain before body after where
    b: "text = before @ opn @ body @ close @ after" "body \<noteq> []" "\<forall>c\<in>set body. \<not> isLineTerminator c"
    unfolding containsMarker_def by blast
  then have "matchAt opn close (opn @ body @ close @ after)"
    unfolding matchAt_iff by blast
  with b(1) show "regexTest opn close text"
    unfolding regexTest_iff_suffix by blast
qed

lemma hasPlaceholders_iff:
  "hasPlaceholders text \<longleftrightarrow>
     containsMarker ''{{'' ''}}'' text \<or> containsMarker ''{{{'' ''}}}'' text \<or> containsMarker ''{%'' ''%}'' text"
proof (cases "text = []")
  case True
  then show ?thesis by (simp add: hasPlaceholders_def containsMarker_def)
next
  case False
  then show ?thesis by (simp add: hasPlaceholders_def regexTest_iff_containsMarker)
qed

section \<open>Properties of the placeholder stage\<close>

lemma processMessage_eq:
  "processMessage template variables (pc, ec) m =
     (expandedMessage template variables m,
      pc + (if expansionChanges template variables m then 1 else 0),
      ec + (if expansionFails template variables m then 1 else 0))"
  by (simp add: processMessage_def expandedMessage_def expansionChanges_def expansionFails_def
           split: sum.splits)

lemma mapMessages_eq:
  "mapMessages template variables (pc, ec) ms =
     (map (expandedMessage template variables) ms,
      pc + length (filter (expansionChanges template variables) ms),
      ec + length (filter (expansionFails template variables) ms))"
  by (induction ms arbitrary: pc ec) (simp_all add: processMessage_eq)

lemma doProcess_nonempty_bag:
  assumes "variables \<noteq> []"
  shows "PlaceholderVariableInjector_doProcess template variables context =
     context\<lparr>messages := map (expandedMessage template variables) (messages context),
             metadata := (metadata context)
               (''placeholdersProcessed'' \<mapsto>
                  NumberValue (length (filter (expansionChanges template variables) (messages context))),
                ''placeholderErrors'' \<mapsto>
                  NumberValue (length (filter (expansionFails template variables) (messages context))),
                ''availableVariables'' \<mapsto> KeysValue (map fst variables)),
             isExecuted := True\<rparr>"
  using assms
  by (simp add: PlaceholderVariableInjector_doProcess_def cloneContext_def markAsExecuted_def
        mapMessages_eq)

lemma doProcess_empty_bag:
  "PlaceholderVariableInjector_doProcess template [] context = markAsExecuted context"
  by (simp add: PlaceholderVariableInjector_doProcess_def cloneContext_def)




text \<open>
  Claim C7. A text that contains none of the three placeholder marker patterns has
  \<open>hasPlaceholders\<close> false, and a message for whose content \<open>hasPlaceholders\<close> is false
  is returned by the placeholder stage as it was.
\<close>

theorem text_without_markers_is_left_alone:
  "(\<not> containsMarker ''{{'' ''}}'' text \<and> \<not> containsMarker ''{{{'' ''}}}'' text \<and>
    \<not> containsMarker ''{%'' ''%}'' text \<longrightarrow> \<not> hasPlaceholders text) \<and>
   length (messages (PlaceholderVariableInjector_doProcess template variables context))
     = length (messages context) \<and>
   (\<forall>i<length (messages context).
      \<not> hasPlaceholders (msg_content (messages context ! i)) \<longrightarrow>
        messages (PlaceholderVariableInjector_doProcess template variables context) ! i
          = messages context ! i)"
proof (cases "variables = []")
  case True
  then show ?thesis
    by (simp add: doProcess_empty_bag markAsExecuted_def hasPlaceholders_iff)
next
  case False
  show ?thesis
    unfolding doProcess_nonempty_bag [OF False]
    by (simp add: expandedMessage_def hasPlaceholders_iff)
qed

theorem text_without_markers_is_left_alone_witness:
  "\<not> containsMarker ''{{'' ''}}'' ''plain'' \<and> \<not> containsMarker ''{{{'' ''}}}'' ''plain'' \<and>
   \<not> containsMarker ''{%'' ''%}'' ''plain'' \<and> \<not> hasPlaceholders ''plain'' \<and>
   \<not> hasPlaceholders (msg_content (messages testContext ! 2)) \<and>
   messages (PlaceholderVariableInjector_doProcess testTemplate [(''name'', ''World'')] testContext) ! 2
     = messages testContext ! 2"
proof -
  have n1: "\<not> containsMarker ''{{'' ''}}'' ''plain''"
    unfolding regexTest_iff_containsMarker [symmetric] by (simp add: matchAt_def)
  have n2: "\<not> containsMarker ''{{{'' ''}}}'' ''plain''"
    unfolding regexTest_iff_containsMarker [symmetric] by (simp add: matchAt_def)
  have n3: "\<not> containsMarker ''{%'' ''%}'' ''plain''"
    unfolding regexTest_iff_containsMarker [symmetric] by (simp add: matchAt_def)
  note r = text_without_markers_is_left_alone [of "''plain''" testTemplate "[(''name'', ''World'')]" testContext]
  have m: "messages testContext = [messageOf ''user'' ''{{greeting}}'', messageOf ''user'' ''{{boom}}'',
                            messageOf ''assistant'' ''plain'']"
    by (simp add: testContext_def contextOf_def)
  have p: "\<not> hasPlaceholders ''plain''"
    using r n1 n2 n3 by blast
  have q: "\<not> hasPlaceholders (msg_content (messages testContext ! 2))"
    using p by (simp add: m messageOf_def)
  have l: "2 < length (messages testContext)"
    by (simp add: m)
  have s: "messages (PlaceholderVariableInjector_doProcess testTemplate [(''name'', ''World'')] testContext) ! 2
     = messages testContext ! 2"
    using r q l by blast
  show ?thesis by (intro conjI n1 n2 n3 p q s)
qed


text \<open>
  Claim C10. With an empty variable bag the placeholder stage returns the context only
  marked as executed: every message is unchanged and the metadata is the metadata of the
  input, so none of the keys \<open>placeholdersProcessed\<close>, \<open>placeholderErrors\<close> and
  \<open>availableVariables\<close> is written.
\<close>

theorem placeholder_empty_bag_is_noop:
  "PlaceholderVariableInjector_doProcess template [] context = markAsExecuted context \<and>
   messages (PlaceholderVariableInjector_doProcess template [] context) = messages context \<and>
   metadata (PlaceholderVariableInjector_doProcess template [] context) = metadata context \<and>
   isExecuted (PlaceholderVariableInjector_doProcess template [] context)"
  by (simp add: doProcess_empty_bag markAsExecuted_def)

section \<open>Properties of the template engine\<close>

lemma emit_Nil [simp]: "emit (Inr []) x = x"
  by (cases x) (simp_all add: emit_def)

lemma emit_Cons: "emit (Inr [c]) (emit (Inr before) x) = emit (Inr (c # before)) x"
  by (cases x) (simp_all add: emit_def)

lemma expand_copies_plain_text:
  "CHR ''{'' \<notin> set before \<Longrightarrow> expand ev run (before @ s) = emit (Inr before) (expand ev run s)"
  by (induction before) (simp_all add: captureAt_def emit_Cons)

lemma capture_html:
  "captureAt ''{{{'' ''}}}'' (''{{{html}}}'' @ after) = Some (''html'', after)"
  "captureAt ''{{{'' ''}}}'' (''{{html}}'' @ after) = None"
  "captureAt ''{{'' ''}}'' (''{{html}}'' @ after) = Some (''html'', after)"
  by (simp_all add: captureAt_def isLineTerminator_def)

text \<open>
  Claim C8. With the variable \<open>html\<close> bound to \<^verbatim>\<open><b>x</b>\<close>, a text that contains the
  triple-brace form \<^verbatim>\<open>{{{html}}}\<close> expands to a text with the escaped form
  \<^verbatim>\<open>&lt;b&gt;x&lt;/b&gt;\<close> in its place, and the same text with the double-brace form
  \<^verbatim>\<open>{{html}}\<close> expands to a text with \<^verbatim>\<open><b>x</b>\<close> as it is: where both pattern classes
  could match, the escaped class is applied. The text before the placeholder has no
  opening brace and the text after it expands without failure.
\<close>

theorem escaped_interpolation_precedes_raw:
  assumes "map_of variables ''html'' = Some ''<b>x</b>''"
    and "CHR ''{'' \<notin> set before"
    and "expand (lookupVariable variables) run after = Inr rest"
  shows "expand (lookupVariable variables) run (before @ ''{{{html}}}'' @ after)
           = Inr (before @ ''&lt;b&gt;x&lt;/b&gt;'' @ rest) \<and>
         expand (lookupVariable variables) run (before @ ''{{html}}'' @ after)
           = Inr (before @ ''<b>x</b>'' @ rest)"
proof -
  have v: "lookupVariable variables ''html'' = Inr ''<b>x</b>''"
    using assms(1) by (simp add: lookupVariable_def)
  have e: "escapeMarkup ''<b>x</b>'' = ''&lt;b&gt;x&lt;/b&gt;''"
    by (simp add: escapeMarkup_def escapeChar_def)
  have a: "expand (lookupVariable variables) run (''{{{html}}}'' @ after) = Inr (''&lt;b&gt;x&lt;/b&gt;'' @ rest)"
    using capture_html(1) [of after] v e assms(3) by (simp add: emit_def)
  have b: "expand (lookupVariable variables) run (''{{html}}'' @ after) = Inr (''<b>x</b>'' @ rest)"
    using capture_html(2,3) [of after] v assms(3) by (simp add: emit_def)
  show ?thesis
    using assms(2) a b by (simp add: expand_copies_plain_text emit_def)
qed

theorem escaped_interpolation_precedes_raw_witness:
  "map_of [(''html'', ''<b>x</b>'')] ''html'' = Some ''<b>x</b>'' \<and>
   CHR ''{'' \<notin> set ''say '' \<and>
   expand (lookupVariable [(''html'', ''<b>x</b>'')]) (\<lambda>code. Inl ()) ''!'' = Inr ''!'' \<and>
   expand (lookupVariable [(''html'', ''<b>x</b>'')]) (\<lambda>code. Inl ()) ''say {{{html}}}!''
     = Inr ''say &lt;b&gt;x&lt;/b&gt;!'' \<and>
   expand (lookupVariable [(''html'', ''<b>x</b>'')]) (\<lambda>code. Inl ()) ''say {{html}}!''
     = Inr ''say <b>x</b>!''"
proof -
  have h1: "map_of [(''html'', ''<b>x</b>'')] ''html'' = Some ''<b>x</b>''" by simp
  have h2: "CHR ''{'' \<notin> set ''say ''" by simp
  have h3: "expand (lookupVariable [(''html'', ''<b>x</b>'')]) (\<lambda>code. Inl ()) ''!'' = Inr ''!''"
    by (simp add: captureAt_def emit_def)
  show ?thesis
    using h1 h2 h3 escaped_interpolation_precedes_raw [OF h1 h2 h3] by simp
qed

end
